theory Spec2Isabelle
  imports Main "HOL-Library.Word"
begin

unbundle bit_operations_syntax

section \<open>Thingylaunch: the key-press handler of the launcher\<close>

text \<open>
  The development embeds \<^verbatim>\<open>Thingylaunch::keypress\<close>, \<^verbatim>\<open>Thingylaunch::execcmd\<close> and the
  key-press part of \<^verbatim>\<open>Thingylaunch::eventLoop\<close> of \<^verbatim>\<open>thingylaunch.cpp\<close>. The command line
  \<^verbatim>\<open>m_command\<close> is a \<^verbatim>\<open>std::string\<close>, modelled as a list of 8-bit characters; the cursor
  \<^verbatim>\<open>m_cursorPos\<close> is a \<^verbatim>\<open>std::string::size_type\<close>, modelled as a natural number with the
  one subtraction that can wrap written out.
\<close>

subsection \<open>X11 constants\<close>

type_synonym keysym = "32 word"

text \<open>Modifier bits of \<^verbatim>\<open>X.h\<close> and key symbols of \<^verbatim>\<open>keysymdef.h\<close>.\<close>

definition ShiftMask :: "16 word" where "ShiftMask = 1"
definition ControlMask :: "16 word" where "ControlMask = 4"
definition Mod1Mask :: "16 word" where "Mod1Mask = 8"

definition XK_BackSpace :: keysym where "XK_BackSpace = 0xff08"
definition XK_Tab :: keysym where "XK_Tab = 0xff09"
definition XK_Return :: keysym where "XK_Return = 0xff0d"
definition XK_Escape :: keysym where "XK_Escape = 0xff1b"
definition XK_Home :: keysym where "XK_Home = 0xff50"
definition XK_Left :: keysym where "XK_Left = 0xff51"
definition XK_Up :: keysym where "XK_Up = 0xff52"
definition XK_Right :: keysym where "XK_Right = 0xff53"
definition XK_Down :: keysym where "XK_Down = 0xff54"
definition XK_End :: keysym where "XK_End = 0xff57"
definition XK_KP_Tab :: keysym where "XK_KP_Tab = 0xff89"
definition XK_KP_Home :: keysym where "XK_KP_Home = 0xff95"
definition XK_KP_Left :: keysym where "XK_KP_Left = 0xff96"
definition XK_KP_Up :: keysym where "XK_KP_Up = 0xff97"
definition XK_KP_Right :: keysym where "XK_KP_Right = 0xff98"
definition XK_KP_Down :: keysym where "XK_KP_Down = 0xff99"
definition XK_KP_End :: keysym where "XK_KP_End = 0xff9c"
definition XK_k :: keysym where "XK_k = 0x6b"
definition XK_w :: keysym where "XK_w = 0x77"

subsection \<open>The key event\<close>

text \<open>
  Of \<^verbatim>\<open>xcb_key_press_event_t\<close> the handler reads \<^verbatim>\<open>detail\<close>, only to look its key symbol
  up in the keyboard mapping of the X server, and \<^verbatim>\<open>state\<close>. The event of the model carries
  the symbol that \<^verbatim>\<open>xcb_key_symbols_get_keysym(m_keysyms, detail, 0)\<close> returns.
\<close>

record key_event =
  keysym_of_detail :: keysym
  state :: "16 word"

text \<open>
  \<^verbatim>\<open>toupper\<close> of the C library. The program never calls \<^verbatim>\<open>setlocale\<close>, so the "C" locale
  applies: the letters a to z are mapped, every other value is returned as it is.
\<close>

definition toupper :: "keysym \<Rightarrow> keysym" where
  "toupper c = (if 0x61 \<le> c \<and> c \<le> 0x7a then c - 0x20 else c)"

subsection \<open>The string operations used by the handler\<close>

datatype error =
  OutOfRange \<comment> \<open>\<^verbatim>\<open>std::out_of_range\<close>, which nothing catches\<close>
| OutOfBounds \<comment> \<open>\<^verbatim>\<open>operator[]\<close> past the end: undefined behaviour\<close>

text \<open>
  \<^verbatim>\<open>SIZE_MAX\<close> of a 64-bit \<^verbatim>\<open>size_type\<close>, the value of \<^verbatim>\<open>0 - 1\<close>. No string is that
  long, so increments of a position never wrap.
\<close>

definition SIZE_MAX :: nat where
  "SIZE_MAX = 2 ^ 64 - 1"

text \<open>\<^verbatim>\<open>s[pos]\<close>: defined for \<^verbatim>\<open>pos <= size()\<close>, the null character at \<^verbatim>\<open>size()\<close>.\<close>

definition string_at :: "string \<Rightarrow> nat \<Rightarrow> error + char" where
  "string_at s pos =
     (if pos < length s then Inr (s ! pos)
      else if pos = length s then Inr (char_of (0::nat))
      else Inl OutOfBounds)"

text \<open>\<^verbatim>\<open>s.erase(index)\<close>: the count defaults to \<^verbatim>\<open>npos\<close>, everything from \<^verbatim>\<open>index\<close> on goes.\<close>

definition string_erase :: "string \<Rightarrow> nat \<Rightarrow> error + string" where
  "string_erase s index =
     (if index > length s then Inl OutOfRange else Inr (take index s))"

text \<open>\<^verbatim>\<open>s.erase(index, count)\<close>: removes \<^verbatim>\<open>min(count, size() - index)\<close> characters.\<close>

definition string_erase_n :: "string \<Rightarrow> nat \<Rightarrow> nat \<Rightarrow> error + string" where
  "string_erase_n s index count =
     (if index > length s then Inl OutOfRange
      else Inr (take index s @ drop (index + min count (length s - index)) s))"

text \<open>\<^verbatim>\<open>s.insert(index, 1, ch)\<close>.\<close>

definition string_insert :: "string \<Rightarrow> nat \<Rightarrow> char \<Rightarrow> error + string" where
  "string_insert s index ch =
     (if index > length s then Inl OutOfRange
      else Inr (take index s @ ch # drop index s))"

text \<open>Storing a key symbol in a \<^verbatim>\<open>char\<close> keeps its low eight bits.\<close>

definition char_of_keysym :: "keysym \<Rightarrow> char" where
  "char_of_keysym c = char_of (unat c)"

subsection \<open>Collaborators and state\<close>

text \<open>
  Modelled from the spec: the classes \<^verbatim>\<open>Completion\<close>, \<^verbatim>\<open>History\<close> and \<^verbatim>\<open>Bookmark\<close>
  (\<^verbatim>\<open>history.h\<close>, \<^verbatim>\<open>bookmark.h\<close> and the class behind \<^verbatim>\<open>m_comp\<close>) are not part of the
  sources at hand. The handler is therefore parametrised by their operations, over any
  type of completion state \<open>'c\<close> and history state \<open>'h\<close>: \<open>comp_next\<close> and \<open>comp_reset\<close>
  for \<^verbatim>\<open>m_comp.next\<close> and \<^verbatim>\<open>m_comp.reset\<close>, \<open>hist_prev\<close>, \<open>hist_next\<close> and \<open>hist_save\<close> for
  \<^verbatim>\<open>m_hist\<close>, \<open>book_lookup\<close> for \<^verbatim>\<open>m_book.lookup\<close>, which never changes the table.
\<close>

record ('c, 'h) collaborators =
  comp_next :: "'c \<Rightarrow> string \<Rightarrow> string \<times> 'c"
  comp_reset :: "'c \<Rightarrow> 'c"
  hist_prev :: "'h \<Rightarrow> string \<times> 'h"
  hist_next :: "'h \<Rightarrow> string \<times> 'h"
  hist_save :: "'h \<Rightarrow> string \<Rightarrow> 'h"
  book_lookup :: "keysym \<Rightarrow> string"

text \<open>
  The members of \<^verbatim>\<open>Thingylaunch\<close> the handler touches. \<open>spawned\<close> records the command
  lines for which \<^verbatim>\<open>execcmd\<close> forked a child running \<^verbatim>\<open>$SHELL -c m_command\<close>. The X11
  members only serve \<^verbatim>\<open>redraw\<close>, which changes none of the members below; the call of
  \<^verbatim>\<open>redraw\<close> that ends the handler, and its exit on an error of the X server, are left out.
\<close>

record ('c, 'h) thingylaunch =
  m_comp :: 'c
  m_hist :: 'h
  m_command :: string
  m_cursorPos :: nat
  spawned :: "string list"

text \<open>The constructor: empty command, cursor 0.\<close>

definition initial :: "'c \<Rightarrow> 'h \<Rightarrow> ('c, 'h) thingylaunch" where
  "initial c h = \<lparr>m_comp = c, m_hist = h, m_command = [], m_cursorPos = 0, spawned = []\<rparr>"

text \<open>
  What a call of \<^verbatim>\<open>keypress\<close> ends with: it returns \<^verbatim>\<open>true\<close> (the event loop stops) or
  \<^verbatim>\<open>false\<close>, calls \<^verbatim>\<open>exit(0)\<close>, or fails.
\<close>

datatype 's outcome = Returned bool 's | Exited | Fault error

definition execcmd :: "('c, 'h) thingylaunch \<Rightarrow> ('c, 'h) thingylaunch" where
  "execcmd st = st\<lparr>spawned := spawned st @ [m_command st]\<rparr>"

subsection \<open>The handler\<close>

definition resolve :: "key_event \<Rightarrow> keysym" where
  "resolve ev =
     (if state ev AND ShiftMask \<noteq> 0 then toupper (keysym_of_detail ev)
      else keysym_of_detail ev)"

text \<open>
  The backward scan of Control+w:
  \<^verbatim>\<open>while (i > 0) { if (m_command[--i] == ' ') break; }\<close>.
\<close>

function scan_back :: "string \<Rightarrow> nat \<Rightarrow> error + nat" where
  "scan_back s i =
     (if i > 0 then
        (case string_at s (i - 1) of
           Inl e \<Rightarrow> Inl e
         | Inr ch \<Rightarrow> if ch = CHR '' '' then Inr (i - 1) else scan_back s (i - 1))
      else Inr i)"
  by pat_completeness auto
termination
  by (relation "measure (\<lambda>(s, i). i)") auto

declare scan_back.simps [simp del]

text \<open>\<^verbatim>\<open>m_cursorPos - 1\<close> on the unsigned \<^verbatim>\<open>size_type\<close>: 0 wraps to \<^verbatim>\<open>SIZE_MAX\<close>.\<close>

definition size_pred :: "nat \<Rightarrow> nat" where
  "size_pred n = (if n = 0 then SIZE_MAX else n - 1)"

text \<open>
  The \<^verbatim>\<open>switch\<close> either leaves the function (\<^verbatim>\<open>exit\<close>, \<^verbatim>\<open>return true\<close>, a failure) or
  breaks with the possibly cleared \<^verbatim>\<open>charPressed\<close>.
\<close>

datatype 's flow = Break keysym 's | Leave "'s outcome"

definition switch_key ::
  "('c, 'h) collaborators \<Rightarrow> keysym \<Rightarrow> 16 word \<Rightarrow> ('c, 'h) thingylaunch
     \<Rightarrow> ('c, 'h) thingylaunch flow" where
  "switch_key E charPressed mods st =
     (if charPressed = XK_Escape then Leave Exited
      else if charPressed = XK_BackSpace then
        (let st1 = st\<lparr>m_comp := comp_reset E (m_comp st)\<rparr> in
         if m_cursorPos st1 \<noteq> 0 then
           (case string_erase (m_command st1) (m_cursorPos st1 - 1) of
              Inl e \<Rightarrow> Leave (Fault e)
            | Inr s \<Rightarrow> Break charPressed
                (st1\<lparr>m_cursorPos := m_cursorPos st1 - 1, m_command := s\<rparr>))
         else Break charPressed st1)
      else if charPressed = XK_Left \<or> charPressed = XK_KP_Left then
        (if m_cursorPos st \<noteq> 0
         then Break charPressed (st\<lparr>m_cursorPos := m_cursorPos st - 1\<rparr>)
         else Break charPressed st)
      else if charPressed = XK_Right \<or> charPressed = XK_KP_Right then
        (if m_cursorPos st < length (m_command st)
         then Break charPressed (st\<lparr>m_cursorPos := m_cursorPos st + 1\<rparr>)
         else Break charPressed st)
      else if charPressed = XK_Up \<or> charPressed = XK_KP_Up then
        (let r = hist_prev E (m_hist st) in
         Break charPressed
           (st\<lparr>m_hist := snd r, m_command := fst r, m_cursorPos := length (fst r)\<rparr>))
      else if charPressed = XK_Down \<or> charPressed = XK_KP_Down then
        (let r = hist_next E (m_hist st) in
         Break charPressed
           (st\<lparr>m_hist := snd r, m_command := fst r, m_cursorPos := length (fst r)\<rparr>))
      else if charPressed = XK_Home \<or> charPressed = XK_KP_Home then
        Break charPressed (st\<lparr>m_cursorPos := 0\<rparr>)
      else if charPressed = XK_End \<or> charPressed = XK_KP_End then
        Break charPressed (st\<lparr>m_cursorPos := length (m_command st)\<rparr>)
      else if charPressed = XK_Return then
        Leave (Returned True
          (execcmd (st\<lparr>m_hist := hist_save E (m_hist st) (m_command st)\<rparr>)))
      else if charPressed = XK_Tab \<or> charPressed = XK_KP_Tab then
        (let r = comp_next E (m_comp st) (m_command st) in
         Break charPressed
           (st\<lparr>m_comp := snd r, m_command := fst r, m_cursorPos := length (fst r)\<rparr>))
      else if charPressed = XK_k then
        (if mods AND ControlMask \<noteq> 0 then
           Break 0 (st\<lparr>m_comp := comp_reset E (m_comp st), m_command := [],
                       m_cursorPos := 0\<rparr>)
         else Break charPressed st)
      else if charPressed = XK_w then
        (if mods AND ControlMask \<noteq> 0 then
           (case scan_back (m_command st) (size_pred (m_cursorPos st)) of
              Inl e \<Rightarrow> Leave (Fault e)
            | Inr i0 \<Rightarrow>
                (let i = (if i0 \<noteq> 0 then i0 + 1 else i0) in
                 case string_erase_n (m_command st) i (m_cursorPos st) of
                   Inl e \<Rightarrow> Leave (Fault e)
                 | Inr s \<Rightarrow> Break 0 (st\<lparr>m_command := s, m_cursorPos := i\<rparr>)))
         else Break charPressed st)
      else Break charPressed st)"

text \<open>The test after the \<^verbatim>\<open>switch\<close>: printable symbols and the keypad digits.\<close>

definition printable :: "keysym \<Rightarrow> bool" where
  "printable c \<longleftrightarrow> (0x20 \<le> c \<and> c \<le> 0x13be) \<or> (0xffb0 \<le> c \<and> c \<le> 0xffb9)"

definition insert_char ::
  "('c, 'h) collaborators \<Rightarrow> keysym \<Rightarrow> ('c, 'h) thingylaunch
     \<Rightarrow> error + ('c, 'h) thingylaunch" where
  "insert_char E charPressed st =
     (case (if m_cursorPos st = length (m_command st)
            then Inr (m_command st @ [char_of_keysym charPressed])
            else string_insert (m_command st) (m_cursorPos st) (char_of_keysym charPressed)) of
        Inl e \<Rightarrow> Inl e
      | Inr s \<Rightarrow> Inr (st\<lparr>m_command := s, m_cursorPos := m_cursorPos st + 1,
                         m_comp := comp_reset E (m_comp st)\<rparr>))"

definition keypress ::
  "('c, 'h) collaborators \<Rightarrow> key_event \<Rightarrow> ('c, 'h) thingylaunch
     \<Rightarrow> ('c, 'h) thingylaunch outcome" where
  "keypress E ev st =
     (let charPressed = resolve ev;
          book = (if state ev AND Mod1Mask \<noteq> 0 then book_lookup E charPressed else [])
      in if state ev AND Mod1Mask \<noteq> 0 \<and> book \<noteq> [] then
           Returned True
             (execcmd (st\<lparr>m_command := book, m_hist := hist_save E (m_hist st) book\<rparr>))
         else
           (case switch_key E charPressed (state ev) st of
              Leave out \<Rightarrow> out
            | Break c st' \<Rightarrow>
                if printable c then
                  (case insert_char E c st' of
                     Inl e \<Rightarrow> Fault e
                   | Inr st'' \<Rightarrow> Returned False st'')
                else Returned False st'))"

text \<open>
  The event loop for key presses: it hands each event to \<^verbatim>\<open>keypress\<close> and stops as soon as
  a call does not return \<^verbatim>\<open>false\<close>.
\<close>

fun run ::
  "('c, 'h) collaborators \<Rightarrow> key_event list \<Rightarrow> ('c, 'h) thingylaunch
     \<Rightarrow> ('c, 'h) thingylaunch outcome" where
  "run E [] st = Returned False st"
| "run E (ev # evs) st =
     (case keypress E ev st of
        Returned b st' \<Rightarrow> if b then Returned True st' else run E evs st'
      | Exited \<Rightarrow> Exited
      | Fault e \<Rightarrow> Fault e)"

subsection \<open>The collaborators as the specification describes them\<close>

text \<open>
  Modelled from the spec: the completion engine of section 4.2, which is not part of the
  sources at hand. \<open>lastPrefix = None\<close> means that no candidate list is live. The first
  \<open>next\<close> after a reset scans the names found on the search path, given in scan order,
  for those that begin with the prefix, without duplicates; later calls step through the
  stored list and wrap around. With no candidate the prefix comes back unchanged.
\<close>

record completion =
  candidates :: "string list"
  cursorIndex :: "nat option"
  lastPrefix :: "string option"

fun starts_with :: "string \<Rightarrow> string \<Rightarrow> bool" where
  "starts_with [] s = True"
| "starts_with (p # ps) [] = False"
| "starts_with (p # ps) (c # cs) = (p = c \<and> starts_with ps cs)"

fun dedup :: "string list \<Rightarrow> string list \<Rightarrow> string list" where
  "dedup seen [] = []"
| "dedup seen (x # xs) = (if x \<in> set seen then dedup seen xs else x # dedup (x # seen) xs)"

definition spec_comp_reset :: "completion \<Rightarrow> completion" where
  "spec_comp_reset c = \<lparr>candidates = [], cursorIndex = None, lastPrefix = None\<rparr>"

definition spec_comp_next :: "string list \<Rightarrow> completion \<Rightarrow> string \<Rightarrow> string \<times> completion" where
  "spec_comp_next path c currentPrefix =
     (case lastPrefix c of
        None \<Rightarrow>
          (let cands = dedup [] (filter (starts_with currentPrefix) path) in
           if cands = []
           then (currentPrefix,
                 \<lparr>candidates = [], cursorIndex = None, lastPrefix = Some currentPrefix\<rparr>)
           else (cands ! 0,
                 \<lparr>candidates = cands, cursorIndex = Some 0, lastPrefix = Some currentPrefix\<rparr>))
      | Some _ \<Rightarrow>
          (case cursorIndex c of
             None \<Rightarrow> (currentPrefix, c)
           | Some i \<Rightarrow>
               (if candidates c = [] then (currentPrefix, c)
                else (let j = (i + 1) mod length (candidates c)
                      in (candidates c ! j, c\<lparr>cursorIndex := Some j\<rparr>)))))"

text \<open>
  Modelled from the spec: the history store of section 4.3, which is not part of the
  sources at hand. \<open>navigationCursor = None\<close> is the at-end sentinel.
\<close>

record history =
  entries :: "string list"
  navigationCursor :: "nat option"

definition spec_hist_save :: "history \<Rightarrow> string \<Rightarrow> history" where
  "spec_hist_save h cmd = \<lparr>entries = entries h @ [cmd], navigationCursor = None\<rparr>"

definition spec_hist_prev :: "history \<Rightarrow> string \<times> history" where
  "spec_hist_prev h =
     (if entries h = [] then ([], h)
      else (let i = (case navigationCursor h of
                       None \<Rightarrow> length (entries h) - 1
                     | Some k \<Rightarrow> if k = 0 then 0 else k - 1)
            in (entries h ! i, h\<lparr>navigationCursor := Some i\<rparr>)))"

definition spec_hist_next :: "history \<Rightarrow> string \<times> history" where
  "spec_hist_next h =
     (case navigationCursor h of
        None \<Rightarrow> ([], h)
      | Some k \<Rightarrow>
          if k + 1 < length (entries h)
          then (entries h ! (k + 1), h\<lparr>navigationCursor := Some (k + 1)\<rparr>)
          else ([], h\<lparr>navigationCursor := None\<rparr>))"

text \<open>
  Modelled from the spec: the bookmark table of section 4.4, which is not part of the
  sources at hand: an immutable mapping from key symbols to commands. \<^verbatim>\<open>lookup\<close> returns a
  \<^verbatim>\<open>std::string\<close>, so a symbol without bookmark yields the empty string.
\<close>

definition spec_book_lookup :: "(keysym \<rightharpoonup> string) \<Rightarrow> keysym \<Rightarrow> string" where
  "spec_book_lookup table k = (case table k of None \<Rightarrow> [] | Some cmd \<Rightarrow> cmd)"

definition spec_collaborators ::
  "string list \<Rightarrow> (keysym \<rightharpoonup> string) \<Rightarrow> (completion, history) collaborators" where
  "spec_collaborators path table =
     \<lparr>comp_next = spec_comp_next path, comp_reset = spec_comp_reset,
      hist_prev = spec_hist_prev, hist_next = spec_hist_next, hist_save = spec_hist_save,
      book_lookup = spec_book_lookup table\<rparr>"

definition fresh_completion :: completion where
  "fresh_completion = \<lparr>candidates = [], cursorIndex = None, lastPrefix = None\<rparr>"

definition history_of :: "string list \<Rightarrow> history" where
  "history_of es = \<lparr>entries = es, navigationCursor = None\<rparr>"

text \<open>Events for the examples: a key without modifiers, with Control, with Alt (Mod1).\<close>

definition key :: "keysym \<Rightarrow> key_event" where
  "key k = \<lparr>keysym_of_detail = k, state = 0\<rparr>"

definition ctrl :: "keysym \<Rightarrow> key_event" where
  "ctrl k = \<lparr>keysym_of_detail = k, state = ControlMask\<rparr>"

definition alt :: "keysym \<Rightarrow> key_event" where
  "alt k = \<lparr>keysym_of_detail = k, state = Mod1Mask\<rparr>"

text \<open>
  Typing a text: one key press per character, without modifiers, with the character code
  as key symbol.
\<close>

definition typing :: "string \<Rightarrow> key_event list" where
  "typing s = map (\<lambda>ch. key (of_nat (of_char ch))) s"

subsection \<open>Notions used by the statements\<close>

text \<open>The condition under which the handler takes the bookmark branch and returns.\<close>

definition bookmark_hit :: "('c, 'h) collaborators \<Rightarrow> key_event \<Rightarrow> bool" where
  "bookmark_hit E ev \<longleftrightarrow> state ev AND Mod1Mask \<noteq> 0 \<and> book_lookup E (resolve ev) \<noteq> []"

text \<open>What the handler does with the result of the \<^verbatim>\<open>switch\<close>.\<close>

definition after_switch ::
  "('c, 'h) collaborators \<Rightarrow> ('c, 'h) thingylaunch flow \<Rightarrow> ('c, 'h) thingylaunch outcome" where
  "after_switch E f =
     (case f of
        Leave out \<Rightarrow> out
      | Break c st' \<Rightarrow>
          if printable c then
            (case insert_char E c st' of Inl e \<Rightarrow> Fault e | Inr st'' \<Rightarrow> Returned False st'')
          else Returned False st')"

text \<open>The symbols that have a \<^verbatim>\<open>case\<close> label in the \<^verbatim>\<open>switch\<close>.\<close>

definition case_label :: "keysym \<Rightarrow> bool" where
  "case_label c \<longleftrightarrow>
     c \<in> {XK_Escape, XK_BackSpace, XK_Left, XK_KP_Left, XK_Right, XK_KP_Right, XK_Up,
          XK_KP_Up, XK_Down, XK_KP_Down, XK_Home, XK_KP_Home, XK_End, XK_KP_End,
          XK_Return, XK_Tab, XK_KP_Tab, XK_k, XK_w}"

text \<open>
  Control+k and Control+w set \<^verbatim>\<open>charPressed\<close> to 0, which keeps the letter out of the
  command.
\<close>

definition ctrl_suppressed :: "key_event \<Rightarrow> bool" where
  "ctrl_suppressed ev \<longleftrightarrow>
     state ev AND ControlMask \<noteq> 0 \<and> (resolve ev = XK_k \<or> resolve ev = XK_w)"

text \<open>The cursor invariant; \<open>0 \<le> m_cursorPos\<close> holds by the unsigned type.\<close>

definition cursor_ok :: "('c, 'h) thingylaunch \<Rightarrow> bool" where
  "cursor_ok st \<longleftrightarrow> m_cursorPos st \<le> length (m_command st)"

text \<open>The state a completion request leaves: text and engine as \<^verbatim>\<open>m_comp.next\<close> returned them.\<close>

definition tab_state ::
  "('c, 'h) collaborators \<Rightarrow> ('c, 'h) thingylaunch \<Rightarrow> ('c, 'h) thingylaunch" where
  "tab_state E st =
     st\<lparr>m_comp := snd (comp_next E (m_comp st) (m_command st)),
        m_command := fst (comp_next E (m_comp st) (m_command st)),
        m_cursorPos := length (fst (comp_next E (m_comp st) (m_command st)))\<rparr>"

text \<open>
  The cursor claim read on an outcome: whenever the call returns, the cursor of the state
  it leaves is within the text.
\<close>

definition cursor_ok_after :: "('c, 'h) thingylaunch outcome \<Rightarrow> bool" where
  "cursor_ok_after out =
     (case out of Returned b st \<Rightarrow> m_cursorPos st \<le> length (m_command st) | _ \<Rightarrow> True)"

text \<open>
  The word boundary in the words of the claim about Control+w: the index just after the
  nearest space strictly before the cursor, or 0 if there is no such space; and the
  buffer and cursor the claim expects, with the span from the boundary to the cursor
  removed and everything else kept.
\<close>

fun claim_boundary :: "string \<Rightarrow> nat \<Rightarrow> nat" where
  "claim_boundary t 0 = 0"
| "claim_boundary t (Suc n) = (if t ! n = CHR '' '' then Suc n else claim_boundary t n)"

definition claimed_erase_word :: "string \<Rightarrow> nat \<Rightarrow> string \<times> nat" where
  "claimed_erase_word t pos =
     (take (claim_boundary t pos) t @ drop pos t, claim_boundary t pos)"

section \<open>Properties\<close>

subsection \<open>Auxiliary facts\<close>

lemmas XK_defs =
  XK_BackSpace_def XK_Tab_def XK_Return_def XK_Escape_def XK_Home_def XK_Left_def
  XK_Up_def XK_Right_def XK_Down_def XK_End_def XK_KP_Tab_def XK_KP_Home_def
  XK_KP_Left_def XK_KP_Up_def XK_KP_Right_def XK_KP_Down_def XK_KP_End_def
  XK_k_def XK_w_def

lemmas Mask_defs = ShiftMask_def ControlMask_def Mod1Mask_def




lemma keypress_no_bookmark:
  "\<not> bookmark_hit E ev \<Longrightarrow>
   keypress E ev st = after_switch E (switch_key E (resolve ev) (state ev) st)"
  by (auto simp: keypress_def bookmark_hit_def after_switch_def Let_def)

lemma keypress_bookmark:
  "bookmark_hit E ev \<Longrightarrow>
   keypress E ev st =
     Returned True (st\<lparr>m_command := book_lookup E (resolve ev),
                       m_hist := hist_save E (m_hist st) (book_lookup E (resolve ev)),
                       spawned := spawned st @ [book_lookup E (resolve ev)]\<rparr>)"
  by (auto simp: keypress_def bookmark_hit_def Let_def execcmd_def)

lemma not_printable_special:
  "\<not> printable XK_BackSpace" "\<not> printable XK_Tab" "\<not> printable XK_Return"
  "\<not> printable XK_Escape" "\<not> printable XK_Home" "\<not> printable XK_Left"
  "\<not> printable XK_Up" "\<not> printable XK_Right" "\<not> printable XK_Down"
  "\<not> printable XK_End" "\<not> printable XK_KP_Tab" "\<not> printable XK_KP_Home"
  "\<not> printable XK_KP_Left" "\<not> printable XK_KP_Up" "\<not> printable XK_KP_Right"
  "\<not> printable XK_KP_Down" "\<not> printable XK_KP_End" "\<not> printable 0"
  by (simp_all add: printable_def XK_defs)

lemma printable_k_w: "printable XK_k" "printable XK_w"
  by (simp_all add: printable_def XK_defs)

lemma switch_key_BackSpace:
  "switch_key E XK_BackSpace m st =
     (if m_cursorPos st \<noteq> 0 then
        (if m_cursorPos st - 1 > length (m_command st) then Leave (Fault OutOfRange)
         else Break XK_BackSpace
                (st\<lparr>m_comp := comp_reset E (m_comp st),
                    m_cursorPos := m_cursorPos st - 1,
                    m_command := take (m_cursorPos st - 1) (m_command st)\<rparr>))
      else Break XK_BackSpace (st\<lparr>m_comp := comp_reset E (m_comp st)\<rparr>))"
  by (simp add: switch_key_def XK_defs Let_def string_erase_def)

lemma switch_key_Tab:
  "c = XK_Tab \<or> c = XK_KP_Tab \<Longrightarrow>
   switch_key E c m st =
     Break c (st\<lparr>m_comp := snd (comp_next E (m_comp st) (m_command st)),
                 m_command := fst (comp_next E (m_comp st) (m_command st)),
                 m_cursorPos := length (fst (comp_next E (m_comp st) (m_command st)))\<rparr>)"
  by (elim disjE) (simp_all add: switch_key_def XK_defs Let_def)

lemma switch_key_Return:
  "switch_key E XK_Return m st =
     Leave (Returned True (st\<lparr>m_hist := hist_save E (m_hist st) (m_command st),
                              spawned := spawned st @ [m_command st]\<rparr>))"
  by (simp add: switch_key_def XK_defs execcmd_def)

lemma switch_key_Up:
  "c = XK_Up \<or> c = XK_KP_Up \<Longrightarrow>
   switch_key E c m st =
     Break c (st\<lparr>m_hist := snd (hist_prev E (m_hist st)),
                 m_command := fst (hist_prev E (m_hist st)),
                 m_cursorPos := length (fst (hist_prev E (m_hist st)))\<rparr>)"
  by (elim disjE) (simp_all add: switch_key_def XK_defs Let_def)

lemma switch_key_Down:
  "c = XK_Down \<or> c = XK_KP_Down \<Longrightarrow>
   switch_key E c m st =
     Break c (st\<lparr>m_hist := snd (hist_next E (m_hist st)),
                 m_command := fst (hist_next E (m_hist st)),
                 m_cursorPos := length (fst (hist_next E (m_hist st)))\<rparr>)"
  by (elim disjE) (simp_all add: switch_key_def XK_defs Let_def)

lemma switch_key_Left:
  "c = XK_Left \<or> c = XK_KP_Left \<Longrightarrow>
   switch_key E c m st = Break c (st\<lparr>m_cursorPos := m_cursorPos st - 1\<rparr>)"
  by (elim disjE) (simp_all add: switch_key_def XK_defs Let_def)


lemma switch_key_default:
  "\<not> case_label c \<Longrightarrow> switch_key E c m st = Break c st"
  by (simp add: switch_key_def case_label_def)

lemma switch_key_plain_k_w:
  "c = XK_k \<or> c = XK_w \<Longrightarrow> m AND ControlMask = 0 \<Longrightarrow> switch_key E c m st = Break c st"
  by (elim disjE) (simp_all add: switch_key_def XK_defs)

lemma printable_not_label:
  "printable c \<Longrightarrow> c \<noteq> XK_k \<Longrightarrow> c \<noteq> XK_w \<Longrightarrow> \<not> case_label c"
proof
  assume p: "printable c" "c \<noteq> XK_k" "c \<noteq> XK_w" and l: "case_label c"
  from l p(2,3) have "\<not> printable c"
    unfolding case_label_def by (auto simp: not_printable_special)
  with p(1) show False by simp
qed


lemma switch_key_Escape: "switch_key E XK_Escape m st = Leave Exited"
  by (simp add: switch_key_def)

lemma switch_key_Right:
  "c = XK_Right \<or> c = XK_KP_Right \<Longrightarrow>
   switch_key E c m st =
     Break c (if m_cursorPos st < length (m_command st)
              then st\<lparr>m_cursorPos := m_cursorPos st + 1\<rparr> else st)"
  by (elim disjE) (simp_all add: switch_key_def XK_defs)

lemma switch_key_Home:
  "c = XK_Home \<or> c = XK_KP_Home \<Longrightarrow>
   switch_key E c m st = Break c (st\<lparr>m_cursorPos := 0\<rparr>)"
  by (elim disjE) (simp_all add: switch_key_def XK_defs)

lemma switch_key_End:
  "c = XK_End \<or> c = XK_KP_End \<Longrightarrow>
   switch_key E c m st = Break c (st\<lparr>m_cursorPos := length (m_command st)\<rparr>)"
  by (elim disjE) (simp_all add: switch_key_def XK_defs)

lemma switch_key_ctrl_k:
  "m AND ControlMask \<noteq> 0 \<Longrightarrow>
   switch_key E XK_k m st =
     Break 0 (st\<lparr>m_comp := comp_reset E (m_comp st), m_command := [], m_cursorPos := 0\<rparr>)"
  by (simp add: switch_key_def XK_defs)

lemma switch_key_ctrl_w:
  "m AND ControlMask \<noteq> 0 \<Longrightarrow>
   switch_key E XK_w m st =
     (case scan_back (m_command st) (size_pred (m_cursorPos st)) of
        Inl e \<Rightarrow> Leave (Fault e)
      | Inr i0 \<Rightarrow>
          (let i = (if i0 \<noteq> 0 then i0 + 1 else i0) in
           case string_erase_n (m_command st) i (m_cursorPos st) of
             Inl e \<Rightarrow> Leave (Fault e)
           | Inr s \<Rightarrow> Break 0 (st\<lparr>m_command := s, m_cursorPos := i\<rparr>)))"
  by (simp add: switch_key_def XK_defs)

lemma insert_char_in_range:
  "m_cursorPos st \<le> length (m_command st) \<Longrightarrow>
   insert_char E c st =
     Inr (st\<lparr>m_command := take (m_cursorPos st) (m_command st) @
                              char_of_keysym c # drop (m_cursorPos st) (m_command st),
             m_cursorPos := m_cursorPos st + 1,
             m_comp := comp_reset E (m_comp st)\<rparr>)"
  by (simp add: insert_char_def string_insert_def)

lemma scan_back_in_range:
  "i \<le> length s \<Longrightarrow>
   \<exists>j. scan_back s i = Inr j \<and> j \<le> i \<and> (j \<noteq> 0 \<longrightarrow> j < i \<and> s ! j = CHR '' '') \<and>
       (\<forall>k. j < k \<and> k < i \<longrightarrow> s ! k \<noteq> CHR '' '')"
proof (induction i)
  case 0
  show ?case by (simp add: scan_back.simps [of s 0])
next
  case (Suc i)
  then have at: "string_at s i = Inr (s ! i)"
    by (simp add: string_at_def)
  show ?case
  proof (cases "s ! i = CHR '' ''")
    case True
    with at have "scan_back s (Suc i) = Inr i"
      by (simp add: scan_back.simps [of s "Suc i"])
    with True show ?thesis by auto
  next
    case False
    with at have eq: "scan_back s (Suc i) = scan_back s i"
      by (simp add: scan_back.simps [of s "Suc i"])
    from Suc obtain j where j: "scan_back s i = Inr j" "j \<le> i"
      "j \<noteq> 0 \<longrightarrow> j < i \<and> s ! j = CHR '' ''" "\<forall>k. j < k \<and> k < i \<longrightarrow> s ! k \<noteq> CHR '' ''"
      by auto
    have "\<forall>k. j < k \<and> k < Suc i \<longrightarrow> s ! k \<noteq> CHR '' ''"
      using j(4) False by (auto simp: less_Suc_eq)
    with j eq show ?thesis by auto
  qed
qed

lemma scan_back_wrapped:
  "length s < SIZE_MAX - 1 \<Longrightarrow> scan_back s SIZE_MAX = Inl OutOfBounds"
  by (subst scan_back.simps) (simp add: string_at_def SIZE_MAX_def)

lemma resolve_key [simp]: "resolve (key k) = k"
  by (simp add: resolve_def key_def)

lemma state_key [simp]: "state (key k) = 0"
  by (simp add: key_def)

lemma resolve_ctrl [simp]: "resolve (ctrl k) = k"
  by (simp add: resolve_def ctrl_def Mask_defs)

lemma state_ctrl [simp]: "state (ctrl k) AND ControlMask \<noteq> 0"
  by (simp add: ctrl_def Mask_defs)

lemma resolve_alt [simp]: "resolve (alt k) = k"
  by (simp add: resolve_def alt_def Mask_defs)

lemma no_bookmark_key [simp]: "\<not> bookmark_hit E (key k)"
  by (simp add: bookmark_hit_def)

lemma no_bookmark_ctrl [simp]: "\<not> bookmark_hit E (ctrl k)"
  by (simp add: bookmark_hit_def ctrl_def Mask_defs)

lemma bookmark_alt [simp]: "bookmark_hit E (alt k) \<longleftrightarrow> book_lookup E k \<noteq> []"
  by (simp add: bookmark_hit_def) (simp add: alt_def Mask_defs)

lemma unat_typed: "unat (of_nat (of_char ch) :: keysym) = of_char ch"
proof -
  have "(of_char ch :: nat) < 256" by simp
  also have "(256 :: nat) < 2 ^ 32" by simp
  finally show ?thesis by (simp add: unat_of_nat)
qed

lemma char_of_keysym_typed [simp]: "char_of_keysym (of_nat (of_char ch)) = ch"
  by (simp add: char_of_keysym_def unat_typed)

lemma printable_typed:
  "(32::nat) \<le> of_char ch \<Longrightarrow> printable (of_nat (of_char ch))"
proof -
  assume lo: "(32::nat) \<le> of_char ch"
  have "(of_char ch :: nat) < 256" by simp
  also have "(256 :: nat) \<le> 5054" by simp
  finally have hi: "(of_char ch :: nat) \<le> 5054" by simp
  have "(0x20 :: keysym) \<le> of_nat (of_char ch)"
    using lo by (simp add: word_le_nat_alt unat_typed)
  moreover have "(of_nat (of_char ch) :: keysym) \<le> 0x13be"
    using hi by (simp add: word_le_nat_alt unat_typed)
  ultimately show ?thesis by (simp add: printable_def)
qed




lemma not_suppressed_key [simp]: "\<not> ctrl_suppressed (key k)"
  by (simp add: ctrl_suppressed_def)

lemma switch_key_inserting:
  assumes "printable c" "\<not> (m AND ControlMask \<noteq> 0 \<and> (c = XK_k \<or> c = XK_w))"
  shows "switch_key E c m st = Break c st"
proof (cases "c = XK_k \<or> c = XK_w")
  case True
  with assms(2) have "m AND ControlMask = 0" by auto
  with True show ?thesis by (rule switch_key_plain_k_w)
next
  case False
  with assms(1) have "\<not> case_label c" by (simp add: printable_not_label)
  then show ?thesis by (rule switch_key_default)
qed

lemma keypress_printable_step:
  assumes "\<not> bookmark_hit E ev" "\<not> ctrl_suppressed ev" "printable (resolve ev)"
    "m_cursorPos st \<le> length (m_command st)"
  shows "keypress E ev st =
     Returned False
       (st\<lparr>m_command := take (m_cursorPos st) (m_command st) @
                            char_of_keysym (resolve ev) # drop (m_cursorPos st) (m_command st),
           m_cursorPos := m_cursorPos st + 1,
           m_comp := comp_reset E (m_comp st)\<rparr>)"
proof -
  have "switch_key E (resolve ev) (state ev) st = Break (resolve ev) st"
    using assms(2,3) by (intro switch_key_inserting) (auto simp: ctrl_suppressed_def)
  with assms(1,3,4) show ?thesis
    by (simp add: keypress_no_bookmark after_switch_def insert_char_in_range)
qed



lemma keypress_typed_char:
  assumes "(32::nat) \<le> of_char ch" "m_cursorPos st = length (m_command st)"
  shows "keypress E (key (of_nat (of_char ch))) st =
     Returned False
       (st\<lparr>m_command := m_command st @ [ch],
           m_cursorPos := length (m_command st) + 1,
           m_comp := comp_reset E (m_comp st)\<rparr>)"
  using assms keypress_printable_step [of E "key (of_nat (of_char ch))" st]
  by (simp add: printable_typed)

lemma run_typing:
  assumes "\<forall>ch \<in> set s. (32::nat) \<le> of_char ch" "m_cursorPos st = length (m_command st)"
  shows "run E (typing s @ evs) st =
     run E evs
       (st\<lparr>m_command := m_command st @ s,
           m_cursorPos := length (m_command st) + length s,
           m_comp := (comp_reset E ^^ length s) (m_comp st)\<rparr>)"
  using assms
proof (induction s arbitrary: st)
  case Nil
  from Nil.prems(2) [symmetric] show ?case by (simp add: typing_def)
next
  case (Cons ch s)
  let ?st1 = "st\<lparr>m_command := m_command st @ [ch],
                  m_cursorPos := length (m_command st) + 1,
                  m_comp := comp_reset E (m_comp st)\<rparr>"
  from Cons.prems have step: "keypress E (key (of_nat (of_char ch))) st = Returned False ?st1"
    by (intro keypress_typed_char) auto
  have at_end: "m_cursorPos ?st1 = length (m_command ?st1)" by simp
  from Cons.prems(1) have rest: "\<forall>ch \<in> set s. (32::nat) \<le> of_char ch" by simp
  have "run E (typing (ch # s) @ evs) st = run E (typing s @ evs) ?st1"
    using step by (simp add: typing_def)
  also note Cons.IH [OF rest at_end]
  finally show ?case by (simp add: funpow_swap1)
qed

lemma keypress_Tab_step:
  assumes "resolve ev = XK_Tab \<or> resolve ev = XK_KP_Tab" "\<not> bookmark_hit E ev"
  shows "keypress E ev st = Returned False (tab_state E st)"
proof -
  from assms(1) have "\<not> printable (resolve ev)"
    by (auto simp: not_printable_special)
  with assms show ?thesis
    by (simp add: keypress_no_bookmark switch_key_Tab after_switch_def tab_state_def)
qed

lemma keypress_Return_step:
  assumes "resolve ev = XK_Return" "\<not> bookmark_hit E ev"
  shows "keypress E ev st =
     Returned True (st\<lparr>m_hist := hist_save E (m_hist st) (m_command st),
                       spawned := spawned st @ [m_command st]\<rparr>)"
  using assms by (simp add: keypress_no_bookmark switch_key_Return after_switch_def)

lemma keypress_Up_step:
  assumes "resolve ev = XK_Up \<or> resolve ev = XK_KP_Up" "\<not> bookmark_hit E ev"
  shows "keypress E ev st =
     Returned False (st\<lparr>m_hist := snd (hist_prev E (m_hist st)),
                        m_command := fst (hist_prev E (m_hist st)),
                        m_cursorPos := length (fst (hist_prev E (m_hist st)))\<rparr>)"
proof -
  from assms(1) have "\<not> printable (resolve ev)"
    by (auto simp: not_printable_special)
  with assms show ?thesis
    by (simp add: keypress_no_bookmark switch_key_Up after_switch_def)
qed

lemma keypress_Down_step:
  assumes "resolve ev = XK_Down \<or> resolve ev = XK_KP_Down" "\<not> bookmark_hit E ev"
  shows "keypress E ev st =
     Returned False (st\<lparr>m_hist := snd (hist_next E (m_hist st)),
                        m_command := fst (hist_next E (m_hist st)),
                        m_cursorPos := length (fst (hist_next E (m_hist st)))\<rparr>)"
proof -
  from assms(1) have "\<not> printable (resolve ev)"
    by (auto simp: not_printable_special)
  with assms show ?thesis
    by (simp add: keypress_no_bookmark switch_key_Down after_switch_def)
qed

lemma keypress_Left_key:
  "keypress E (key XK_Left) st = Returned False (st\<lparr>m_cursorPos := m_cursorPos st - 1\<rparr>)"
  by (simp add: keypress_no_bookmark switch_key_Left after_switch_def not_printable_special)

lemma keypress_BackSpace_step:
  assumes "resolve ev = XK_BackSpace" "\<not> bookmark_hit E ev"
    "0 < m_cursorPos st" "m_cursorPos st \<le> length (m_command st)"
  shows "keypress E ev st =
     Returned False (st\<lparr>m_comp := comp_reset E (m_comp st),
                        m_cursorPos := m_cursorPos st - 1,
                        m_command := take (m_cursorPos st - 1) (m_command st)\<rparr>)"
  using assms
  by (simp add: keypress_no_bookmark switch_key_BackSpace after_switch_def
      not_printable_special)

lemma keypress_ctrl_w_wrapped:
  assumes "resolve ev = XK_w" "state ev AND ControlMask \<noteq> 0" "\<not> bookmark_hit E ev"
    "m_cursorPos st = 0" "length (m_command st) < SIZE_MAX - 1"
  shows "keypress E ev st = Fault OutOfBounds"
  using assms
  by (simp add: keypress_no_bookmark switch_key_ctrl_w after_switch_def size_pred_def
      scan_back_wrapped)

lemma switch_key_Break_facts:
  assumes "switch_key E c m st = Break c' st'"
  shows "spawned st' = spawned st" and "cursor_ok st \<Longrightarrow> cursor_ok st'"
    and "c' = c \<or> c' = 0"
  using assms unfolding switch_key_def cursor_ok_def
  by (auto simp: Let_def string_erase_def string_erase_n_def
      split: if_splits sum.splits)

lemma switch_key_Leave_facts:
  assumes "switch_key E c m st = Leave (Returned b st')"
  shows "c = XK_Return" and "b"
    and "st' = st\<lparr>m_hist := hist_save E (m_hist st) (m_command st),
                     spawned := spawned st @ [m_command st]\<rparr>"
  using assms unfolding switch_key_def
  by (auto simp: Let_def execcmd_def split: if_splits sum.splits)

lemma insert_char_facts:
  assumes "insert_char E c st = Inr st'"
  shows "spawned st' = spawned st" and "cursor_ok st'"
  using assms unfolding insert_char_def cursor_ok_def string_insert_def
  by (auto split: if_splits)

lemma keypress_cursor_ok:
  assumes "cursor_ok st" "\<not> bookmark_hit E ev" "keypress E ev st = Returned b st'"
  shows "cursor_ok st'"
proof (cases "switch_key E (resolve ev) (state ev) st")
  case (Break c' st1)
  then have ok1: "cursor_ok st1"
    using assms(1) switch_key_Break_facts(2) by blast
  from assms(2,3) Break show ?thesis
    using ok1 insert_char_facts(2) [of E c' st1]
    by (auto simp: keypress_no_bookmark after_switch_def split: if_splits sum.splits)
next
  case (Leave out)
  with assms(2,3) have "switch_key E (resolve ev) (state ev) st = Leave (Returned b st')"
    by (simp add: keypress_no_bookmark after_switch_def)
  from switch_key_Leave_facts(3) [OF this] assms(1) show ?thesis
    by (simp add: cursor_ok_def)
qed

lemma keypress_no_launch:
  assumes "\<not> bookmark_hit E ev" "resolve ev \<noteq> XK_Return" "keypress E ev st = Returned b st'"
  shows "\<not> b" and "spawned st' = spawned st"
proof -
  have "\<not> b \<and> spawned st' = spawned st"
  proof (cases "switch_key E (resolve ev) (state ev) st")
    case (Break c' st1)
    then have sp: "spawned st1 = spawned st"
      using switch_key_Break_facts(1) by blast
    from assms(1,3) Break show ?thesis
      using sp insert_char_facts(1) [of E c' st1]
      by (auto simp: keypress_no_bookmark after_switch_def split: if_splits sum.splits)
  next
    case (Leave out)
    with assms(1,3) have "switch_key E (resolve ev) (state ev) st = Leave (Returned b st')"
      by (simp add: keypress_no_bookmark after_switch_def)
    from switch_key_Leave_facts(1) [OF this] assms(2) show ?thesis by simp
  qed
  then show "\<not> b" and "spawned st' = spawned st" by simp_all
qed

lemma keypress_False_no_bookmark:
  assumes "keypress E ev st = Returned False st'"
  shows "\<not> bookmark_hit E ev"
proof
  assume "bookmark_hit E ev"
  from keypress_bookmark [OF this, of st] assms show False by simp
qed

lemma run_cursor_ok:
  assumes "cursor_ok st" "run E evs st = Returned False st'"
  shows "cursor_ok st'"
  using assms
proof (induction evs arbitrary: st)
  case Nil
  then show ?case by simp
next
  case (Cons ev evs)
  from Cons.prems(2) obtain st1 where
    step: "keypress E ev st = Returned False st1" and rest: "run E evs st1 = Returned False st'"
    by (auto split: outcome.splits if_splits)
  from step have "\<not> bookmark_hit E ev" by (rule keypress_False_no_bookmark)
  with Cons.prems(1) step have "cursor_ok st1" by (blast intro: keypress_cursor_ok)
  from Cons.IH [OF this rest] show ?case .
qed

lemma drop_Mod1_Shift: "(s AND NOT Mod1Mask) AND ShiftMask = s AND ShiftMask"
  by (simp add: Mask_defs and.assoc)

lemma drop_Mod1_Control: "(s AND NOT Mod1Mask) AND ControlMask = s AND ControlMask"
  by (simp add: Mask_defs and.assoc)

lemma drop_Mod1_Mod1: "(s AND NOT Mod1Mask) AND Mod1Mask = 0"
  by (simp add: and.assoc)

lemma switch_key_mods:
  "(m AND ControlMask \<noteq> 0) = (m' AND ControlMask \<noteq> 0) \<Longrightarrow>
   switch_key E c m st = switch_key E c m' st"
  by (simp add: switch_key_def)

lemma keypress_without_Mod1:
  "keypress E (ev\<lparr>state := state ev AND NOT Mod1Mask\<rparr>) st =
     after_switch E (switch_key E (resolve ev) (state ev) st)"
proof -
  let ?ev = "ev\<lparr>state := state ev AND NOT Mod1Mask\<rparr>"
  have r: "resolve ?ev = resolve ev"
    by (simp add: resolve_def drop_Mod1_Shift)
  have nb: "\<not> bookmark_hit E ?ev"
    by (simp add: bookmark_hit_def drop_Mod1_Mod1)
  have "switch_key E (resolve ev) (state ?ev) st = switch_key E (resolve ev) (state ev) st"
    by (rule switch_key_mods) (simp add: drop_Mod1_Control)
  with r nb show ?thesis by (simp add: keypress_no_bookmark)
qed

lemma keypress_key_printable:
  assumes "printable k" "m_cursorPos st \<le> length (m_command st)"
  shows "keypress E (key k) st =
     Returned False
       (st\<lparr>m_command := take (m_cursorPos st) (m_command st) @
                            char_of_keysym k # drop (m_cursorPos st) (m_command st),
           m_cursorPos := m_cursorPos st + 1,
           m_comp := comp_reset E (m_comp st)\<rparr>)"
  using assms keypress_printable_step [of E "key k" st] by simp

lemma char_of_keysym_eqI: "k = of_nat (of_char ch) \<Longrightarrow> char_of_keysym k = ch"
  by simp

lemma keypress_ctrl_w_step:
  assumes "resolve ev = XK_w" "state ev AND ControlMask \<noteq> 0" "\<not> bookmark_hit E ev"
    and "scan_back (m_command st) (size_pred (m_cursorPos st)) = Inr i0"
    and "b = (if i0 \<noteq> 0 then i0 + 1 else i0)" "b \<le> length (m_command st)"
  shows "keypress E ev st =
     Returned False
       (st\<lparr>m_command := take b (m_command st) @
                            drop (b + min (m_cursorPos st) (length (m_command st) - b))
                              (m_command st),
           m_cursorPos := b\<rparr>)"
  using assms
  by (simp add: keypress_no_bookmark switch_key_ctrl_w after_switch_def string_erase_n_def
      not_printable_special Let_def)

lemma keypress_ctrl_w_key:
  assumes "scan_back t (size_pred pos) = Inr i0"
    and "b = (if i0 \<noteq> 0 then i0 + 1 else i0)" "b \<le> length t"
  shows "keypress E (ctrl XK_w) (st\<lparr>m_command := t, m_cursorPos := pos\<rparr>) =
     Returned False
       (st\<lparr>m_command := take b t @ drop (b + min pos (length t - b)) t, m_cursorPos := b\<rparr>)"
  using assms keypress_ctrl_w_step [of "ctrl XK_w" E "st\<lparr>m_command := t, m_cursorPos := pos\<rparr>" i0 b]
  by simp

subsection \<open>Erase-backward\<close>

text \<open>
  C2. The claim: BackSpace removes exactly the character before the cursor and leaves the
  characters after the cursor as they are. The handler calls \<^verbatim>\<open>m_command.erase(--m_cursorPos)\<close>
  with one argument, which removes everything from the new cursor position to the end.
  After typing \<^verbatim>\<open>abc\<close> and moving the cursor left twice, BackSpace leaves the empty command
  where the claim leaves \<^verbatim>\<open>bc\<close>.
\<close>

theorem backspace_truncates_tail:
  "run E (typing ''abc'' @ [key XK_Left, key XK_Left, key XK_BackSpace]) (initial c h) =
     Returned False
       \<lparr>m_comp = comp_reset E (comp_reset E (comp_reset E (comp_reset E c))), m_hist = h,
        m_command = [], m_cursorPos = 0, spawned = []\<rparr>"
proof -
  have typed: "run E (typing ''abc'' @ [key XK_Left, key XK_Left, key XK_BackSpace]) (initial c h) =
      run E [key XK_Left, key XK_Left, key XK_BackSpace]
        \<lparr>m_comp = comp_reset E (comp_reset E (comp_reset E c)), m_hist = h,
         m_command = ''abc'', m_cursorPos = 3, spawned = []\<rparr>"
    by (subst run_typing) (simp_all add: initial_def eval_nat_numeral)
  show ?thesis
    unfolding typed
    by (simp add: keypress_Left_key keypress_BackSpace_step)
qed

subsection \<open>Erase-word-backward at the start of the line\<close>

text \<open>
  C5. The claim: Control+w with the cursor at position 0 is a no-op and the backward scan
  never reads outside the text. The handler computes \<^verbatim>\<open>m_cursorPos - 1\<close> on the unsigned
  \<^verbatim>\<open>size_type\<close>, which wraps to \<^verbatim>\<open>SIZE_MAX\<close>, so the loop runs and its first read,
  \<^verbatim>\<open>m_command[SIZE_MAX - 1]\<close>, is far past the end: on the empty command of a fresh
  launcher, and on a non-empty command with the cursor at its start.
\<close>

theorem ctrl_w_at_start_reads_out_of_bounds:
  "keypress E (ctrl XK_w) (initial c h) = Fault OutOfBounds \<and>
   keypress E (ctrl XK_w) (st\<lparr>m_command := ''echo hello'', m_cursorPos := 0\<rparr>) =
     Fault OutOfBounds"
  by (simp add: keypress_ctrl_w_wrapped initial_def SIZE_MAX_def)

subsection \<open>Submit\<close>

text \<open>
  C7. Whatever the command text, the empty one included, Return without a bookmark hit
  calls \<^verbatim>\<open>m_hist.save\<close> with the text, hands the text to \<^verbatim>\<open>execcmd\<close> and returns
  \<^verbatim>\<open>true\<close>; nothing else changes.
\<close>

theorem submit_saves_and_launches:
  assumes "resolve ev = XK_Return" and "\<not> bookmark_hit E ev"
  shows "keypress E ev st =
     Returned True (st\<lparr>m_hist := hist_save E (m_hist st) (m_command st),
                       spawned := spawned st @ [m_command st]\<rparr>)"
  using assms by (rule keypress_Return_step)

theorem submit_saves_and_launches_witness:
  "resolve (key XK_Return) = XK_Return \<and>
   \<not> bookmark_hit (spec_collaborators [] Map.empty) (key XK_Return) \<and>
   keypress (spec_collaborators [] Map.empty) (key XK_Return)
       (initial fresh_completion (history_of [])) =
     Returned True
       \<lparr>m_comp = fresh_completion, m_hist = \<lparr>entries = [[]], navigationCursor = None\<rparr>,
        m_command = [], m_cursorPos = 0, spawned = [[]]\<rparr>"
  using submit_saves_and_launches
    [of "key XK_Return" "spec_collaborators [] Map.empty"
        "initial fresh_completion (history_of [])"]
  by (simp add: initial_def spec_collaborators_def spec_hist_save_def history_of_def)

subsection \<open>Completion request\<close>

text \<open>
  C6. Tab (or the keypad Tab) without a bookmark hit replaces the command by the text
  \<^verbatim>\<open>m_comp.next\<close> returns for it, puts the cursor at its end and keeps the engine exactly as
  \<^verbatim>\<open>next\<close> left it: no reset. A second Tab right after therefore calls \<^verbatim>\<open>next\<close> on
  the engine state of the first, which is what lets it cycle.
\<close>

theorem tab_completes_without_reset:
  assumes "resolve ev = XK_Tab \<or> resolve ev = XK_KP_Tab" and "\<not> bookmark_hit E ev"
  shows "keypress E ev st = Returned False (tab_state E st) \<and>
         m_command (tab_state E st) = fst (comp_next E (m_comp st) (m_command st)) \<and>
         m_cursorPos (tab_state E st) = length (m_command (tab_state E st)) \<and>
         m_comp (tab_state E st) = snd (comp_next E (m_comp st) (m_command st)) \<and>
         run E [ev, ev] st = Returned False (tab_state E (tab_state E st))"
  using assms by (simp add: keypress_Tab_step) (simp add: tab_state_def)

theorem tab_completes_without_reset_witness:
  "(resolve (key XK_Tab) = XK_Tab \<or> resolve (key XK_Tab) = XK_KP_Tab) \<and>
   \<not> bookmark_hit (spec_collaborators [''git'', ''gimp''] Map.empty) (key XK_Tab) \<and>
   keypress (spec_collaborators [''git'', ''gimp''] Map.empty) (key XK_Tab)
       ((initial fresh_completion (history_of []))\<lparr>m_command := ''gi'', m_cursorPos := 2\<rparr>) =
     Returned False
       \<lparr>m_comp = \<lparr>candidates = [''git'', ''gimp''], cursorIndex = Some 0,
                  lastPrefix = Some ''gi''\<rparr>,
        m_hist = history_of [], m_command = ''git'', m_cursorPos = 3, spawned = []\<rparr> \<and>
   run (spec_collaborators [''git'', ''gimp''] Map.empty) [key XK_Tab, key XK_Tab]
       ((initial fresh_completion (history_of []))\<lparr>m_command := ''gi'', m_cursorPos := 2\<rparr>) =
     Returned False
       \<lparr>m_comp = \<lparr>candidates = [''git'', ''gimp''], cursorIndex = Some 1,
                  lastPrefix = Some ''gi''\<rparr>,
        m_hist = history_of [], m_command = ''gimp'', m_cursorPos = 4, spawned = []\<rparr>"
  (is "?h1 \<and> ?h2 \<and> keypress ?E ?ev ?st = Returned False ?s1 \<and> run ?E ?evs ?st = Returned False ?s2")
proof -
  have h1: ?h1 by simp
  have h2: ?h2 by simp
  note t = tab_completes_without_reset [OF h1 h2, of ?st]
  have s1: "tab_state ?E ?st = ?s1"
    by (simp add: tab_state_def initial_def spec_collaborators_def spec_comp_next_def
        fresh_completion_def)
  have s2: "tab_state ?E ?s1 = ?s2"
    by (simp add: tab_state_def spec_collaborators_def spec_comp_next_def)
  from t have a: "keypress ?E ?ev ?st = Returned False (tab_state ?E ?st)"
    and b: "run ?E ?evs ?st = Returned False (tab_state ?E (tab_state ?E ?st))"
    by blast+
  show ?thesis
    unfolding a b s1 s2 using h1 h2 by simp
qed

subsection \<open>History navigation and the completion engine\<close>

text \<open>
  C3. The claim: every mutating key other than Tab resets the completion engine, the
  history keys in particular. The \<^verbatim>\<open>XK_Up\<close> and \<^verbatim>\<open>XK_Down\<close> branches replace the command but
  never call \<^verbatim>\<open>m_comp.reset\<close>: the engine comes out of them as it went in. With the engine of
  the specification, after typing \<^verbatim>\<open>gi\<close>, Tab (\<^verbatim>\<open>git\<close>) and Up (the history entry
  \<^verbatim>\<open>ls -l\<close>), the candidate list of \<^verbatim>\<open>gi\<close> is still live, and the next Tab overwrites the
  history entry with the next candidate, \<^verbatim>\<open>gimp\<close>.
\<close>

theorem history_keys_keep_completion_state:
  "keypress E (key XK_Up) st =
     Returned False (st\<lparr>m_hist := snd (hist_prev E (m_hist st)),
                        m_command := fst (hist_prev E (m_hist st)),
                        m_cursorPos := length (fst (hist_prev E (m_hist st)))\<rparr>) \<and>
   keypress E (key XK_Down) st =
     Returned False (st\<lparr>m_hist := snd (hist_next E (m_hist st)),
                        m_command := fst (hist_next E (m_hist st)),
                        m_cursorPos := length (fst (hist_next E (m_hist st)))\<rparr>) \<and>
   run (spec_collaborators [''git'', ''gimp''] Map.empty)
       (typing ''gi'' @ [key XK_Tab, key XK_Up])
       (initial fresh_completion (history_of [''ls -l''])) =
     Returned False
       \<lparr>m_comp = \<lparr>candidates = [''git'', ''gimp''], cursorIndex = Some 0,
                  lastPrefix = Some ''gi''\<rparr>,
        m_hist = \<lparr>entries = [''ls -l''], navigationCursor = Some 0\<rparr>,
        m_command = ''ls -l'', m_cursorPos = 5, spawned = []\<rparr> \<and>
   run (spec_collaborators [''git'', ''gimp''] Map.empty)
       (typing ''gi'' @ [key XK_Tab, key XK_Up, key XK_Tab])
       (initial fresh_completion (history_of [''ls -l''])) =
     Returned False
       \<lparr>m_comp = \<lparr>candidates = [''git'', ''gimp''], cursorIndex = Some 1,
                  lastPrefix = Some ''gi''\<rparr>,
        m_hist = \<lparr>entries = [''ls -l''], navigationCursor = Some 0\<rparr>,
        m_command = ''gimp'', m_cursorPos = 4, spawned = []\<rparr>"
  (is "?up \<and> ?down \<and> run ?E (typing ''gi'' @ ?evs1) ?st = ?r1 \<and>
        run ?E (typing ''gi'' @ ?evs2) ?st = ?r2")
proof -
  have up: ?up by (simp add: keypress_Up_step)
  have down: ?down by (simp add: keypress_Down_step)
  have typed: "run ?E (typing ''gi'' @ evs) ?st =
      run ?E evs \<lparr>m_comp = fresh_completion, m_hist = history_of [''ls -l''],
                  m_command = ''gi'', m_cursorPos = 2, spawned = []\<rparr>" for evs
    by (subst run_typing)
      (simp_all add: initial_def eval_nat_numeral spec_collaborators_def spec_comp_reset_def
        fresh_completion_def)
  have tab: "keypress ?E (key XK_Tab) s = Returned False (tab_state ?E s)" for s
    by (simp add: keypress_Tab_step)
  have r1: "run ?E (typing ''gi'' @ ?evs1) ?st = ?r1"
    unfolding typed
    by (simp add: tab keypress_Up_step)
      (simp add: tab_state_def spec_collaborators_def spec_comp_next_def spec_hist_prev_def
        fresh_completion_def history_of_def)
  have r2: "run ?E (typing ''gi'' @ ?evs2) ?st = ?r2"
    unfolding typed
    by (simp add: tab keypress_Up_step)
      (simp add: tab_state_def spec_collaborators_def spec_comp_next_def spec_hist_prev_def
        fresh_completion_def history_of_def)
  from up down r1 r2 show ?thesis by blast
qed

subsection \<open>A bookmark with an empty command\<close>

text \<open>
  C10. With Alt (Mod1) held and an empty string as the result of the bookmark lookup, the
  handler skips the bookmark branch: the call is the \<^verbatim>\<open>switch\<close> and the printable test on
  the same symbol, exactly what the same key does without Alt, where no lookup takes place.
  Nothing is launched and \<^verbatim>\<open>true\<close> is not returned, unless the key itself is Return.
\<close>

theorem empty_bookmark_falls_through:
  assumes "state ev AND Mod1Mask \<noteq> 0" and "book_lookup E (resolve ev) = []"
  shows "keypress E ev st = after_switch E (switch_key E (resolve ev) (state ev) st) \<and>
         keypress E ev st = keypress E (ev\<lparr>state := state ev AND NOT Mod1Mask\<rparr>) st \<and>
         (resolve ev \<noteq> XK_Return \<longrightarrow>
            (\<forall>b st'. keypress E ev st = Returned b st' \<longrightarrow> \<not> b \<and> spawned st' = spawned st))"
proof -
  from assms(2) have nb: "\<not> bookmark_hit E ev"
    by (simp add: bookmark_hit_def)
  then have a: "keypress E ev st = after_switch E (switch_key E (resolve ev) (state ev) st)"
    by (rule keypress_no_bookmark)
  have b: "keypress E ev st = keypress E (ev\<lparr>state := state ev AND NOT Mod1Mask\<rparr>) st"
    by (simp only: a keypress_without_Mod1)
  from nb have c: "resolve ev \<noteq> XK_Return \<longrightarrow>
      (\<forall>b st'. keypress E ev st = Returned b st' \<longrightarrow> \<not> b \<and> spawned st' = spawned st)"
    using keypress_no_launch [of E ev st] by blast
  from a b c show ?thesis by blast
qed

theorem empty_bookmark_falls_through_witness:
  "state (alt 0x78) AND Mod1Mask \<noteq> 0 \<and>
   book_lookup (spec_collaborators [] [0x78 \<mapsto> []]) (resolve (alt 0x78)) = [] \<and>
   keypress (spec_collaborators [] [0x78 \<mapsto> []]) (alt 0x78)
       (initial fresh_completion (history_of [])) =
     keypress (spec_collaborators [] [0x78 \<mapsto> []]) (key 0x78)
       (initial fresh_completion (history_of [])) \<and>
   keypress (spec_collaborators [] [0x78 \<mapsto> []]) (key 0x78)
       (initial fresh_completion (history_of [])) =
     Returned False
       \<lparr>m_comp = fresh_completion, m_hist = history_of [], m_command = ''x'',
        m_cursorPos = 1, spawned = []\<rparr>"
  (is "?h1 \<and> ?h2 \<and> keypress ?E ?ev ?st = keypress ?E ?ev' ?st \<and> keypress ?E ?ev' ?st = ?r")
proof -
  have h1: ?h1 by (simp add: alt_def Mask_defs)
  have h2: ?h2 by (simp add: spec_collaborators_def spec_book_lookup_def)
  have ev': "(alt 0x78)\<lparr>state := state (alt 0x78) AND NOT Mod1Mask\<rparr> = key 0x78"
    by (simp add: alt_def key_def)
  from empty_bookmark_falls_through [OF h1 h2, of ?st]
  have a: "keypress ?E ?ev ?st = keypress ?E ?ev' ?st"
    unfolding ev' by blast
  have x: "char_of_keysym 0x78 = CHR ''x''"
    by (rule char_of_keysym_eqI) simp
  have b: "keypress ?E ?ev' ?st = ?r"
    by (subst keypress_key_printable)
      (simp_all add: x printable_def initial_def spec_collaborators_def
        spec_comp_reset_def fresh_completion_def)
  from h1 h2 a b show ?thesis by blast
qed

subsection \<open>Bookmarks\<close>

text \<open>
  C8. Let Alt (Mod1) be held and the bookmark lookup of the resolved symbol return a
  non-empty command \<open>cmd\<close>, which is how the handler recognises a mapped symbol. Then the
  call puts \<open>cmd\<close> in the buffer, saves it to the history, launches it and returns
  \<^verbatim>\<open>true\<close>. Typing \<open>cmd\<close> into the emptied buffer, one key per character, and pressing
  Return ends the same way: the same buffer, the same history, the same launch, \<^verbatim>\<open>true\<close>.
  Only this second half needs \<open>cmd\<close> to be something one can type: its characters must
  be in the printable window, that is from the space on. The two final states differ only
  where the claim does not look: the typed run leaves the cursor at the end and has reset
  the completion engine once per character.
\<close>

theorem bookmark_like_typed_submit:
  assumes "state ev AND Mod1Mask \<noteq> 0" and "book_lookup E (resolve ev) = cmd"
    and "cmd \<noteq> []"
  shows "keypress E ev st =
           Returned True (st\<lparr>m_command := cmd, m_hist := hist_save E (m_hist st) cmd,
                             spawned := spawned st @ [cmd]\<rparr>) \<and>
         ((\<forall>ch \<in> set cmd. (32::nat) \<le> of_char ch) \<longrightarrow>
          run E (typing cmd @ [key XK_Return]) (st\<lparr>m_command := [], m_cursorPos := 0\<rparr>) =
            Returned True (st\<lparr>m_command := cmd, m_hist := hist_save E (m_hist st) cmd,
                              spawned := spawned st @ [cmd],
                              m_cursorPos := length cmd,
                              m_comp := (comp_reset E ^^ length cmd) (m_comp st)\<rparr>))"
proof (intro conjI impI)
  from assms have "bookmark_hit E ev"
    by (simp add: bookmark_hit_def)
  from keypress_bookmark [OF this, of st] assms(2)
  show "keypress E ev st =
      Returned True (st\<lparr>m_command := cmd, m_hist := hist_save E (m_hist st) cmd,
                        spawned := spawned st @ [cmd]\<rparr>)"
    by simp
next
  assume typeable: "\<forall>ch \<in> set cmd. (32::nat) \<le> of_char ch"
  have "run E (typing cmd @ [key XK_Return]) (st\<lparr>m_command := [], m_cursorPos := 0\<rparr>) =
      run E [key XK_Return]
        (st\<lparr>m_command := cmd, m_cursorPos := length cmd,
            m_comp := (comp_reset E ^^ length cmd) (m_comp st)\<rparr>)"
    using typeable by (subst run_typing) simp_all
  also have "\<dots> =
      Returned True (st\<lparr>m_command := cmd, m_hist := hist_save E (m_hist st) cmd,
                        spawned := spawned st @ [cmd],
                        m_cursorPos := length cmd,
                        m_comp := (comp_reset E ^^ length cmd) (m_comp st)\<rparr>)"
    by (simp add: keypress_Return_step)
  finally show "run E (typing cmd @ [key XK_Return]) (st\<lparr>m_command := [], m_cursorPos := 0\<rparr>) =
      Returned True (st\<lparr>m_command := cmd, m_hist := hist_save E (m_hist st) cmd,
                        spawned := spawned st @ [cmd],
                        m_cursorPos := length cmd,
                        m_comp := (comp_reset E ^^ length cmd) (m_comp st)\<rparr>)" .
qed

theorem bookmark_like_typed_submit_witness:
  "state (alt 0x78) AND Mod1Mask \<noteq> 0 \<and>
   book_lookup (spec_collaborators [] [0x78 \<mapsto> ''xterm'']) (resolve (alt 0x78)) = ''xterm'' \<and>
   ''xterm'' \<noteq> [] \<and> (32::nat) \<le> of_char CHR ''x'' \<and>
   keypress (spec_collaborators [] [0x78 \<mapsto> ''xterm'']) (alt 0x78)
       (initial fresh_completion (history_of [''ls''])) =
     Returned True
       \<lparr>m_comp = fresh_completion,
        m_hist = \<lparr>entries = [''ls'', ''xterm''], navigationCursor = None\<rparr>,
        m_command = ''xterm'', m_cursorPos = 0, spawned = [''xterm'']\<rparr> \<and>
   run (spec_collaborators [] [0x78 \<mapsto> ''xterm'']) (typing ''xterm'' @ [key XK_Return])
       (initial fresh_completion (history_of [''ls''])) =
     Returned True
       \<lparr>m_comp = fresh_completion,
        m_hist = \<lparr>entries = [''ls'', ''xterm''], navigationCursor = None\<rparr>,
        m_command = ''xterm'', m_cursorPos = 5, spawned = [''xterm'']\<rparr>"
  (is "?h1 \<and> ?h2 \<and> ?h3 \<and> ?h4 \<and> keypress ?E ?ev ?st = ?r1 \<and> run ?E ?evs ?st = ?r2")
proof -
  have h1: ?h1 by (simp add: alt_def Mask_defs)
  have h2: ?h2 by (simp add: spec_collaborators_def spec_book_lookup_def)
  have h3: ?h3 by simp
  have h4: ?h4 by simp
  have h5: "\<forall>ch \<in> set ''xterm''. (32::nat) \<le> of_char ch" by simp
  note t = bookmark_like_typed_submit [OF h1 h2 h3, of ?st]
  have st: "?st\<lparr>m_command := [], m_cursorPos := 0\<rparr> = ?st"
    by (simp add: initial_def)
  have a: "keypress ?E ?ev ?st = ?r1"
    by (subst conjunct1 [OF t])
      (simp add: initial_def spec_collaborators_def spec_hist_save_def history_of_def)
  have b: "run ?E ?evs ?st = ?r2"
    using mp [OF conjunct2 [OF t] h5] unfolding st
    by (simp add: initial_def spec_collaborators_def spec_hist_save_def history_of_def
        spec_comp_reset_def fresh_completion_def eval_nat_numeral)
  from h1 h2 h3 h4 a b show ?thesis by blast
qed

subsection \<open>Printable characters\<close>



subsection \<open>The cursor stays within the text\<close>

text \<open>
  C1. The claim: after each call of the handler the cursor is at most the length of the
  text. The branches that replace the whole text, \<^verbatim>\<open>XK_Up\<close>, \<^verbatim>\<open>XK_Down\<close> and \<^verbatim>\<open>XK_Tab\<close>,
  set \<^verbatim>\<open>m_cursorPos = m_command.length()\<close> right after; the bookmark branch replaces
  \<^verbatim>\<open>m_command\<close> and returns without it. After typing \<^verbatim>\<open>ab\<close>, Alt+x with the bookmark
  \<^verbatim>\<open>x\<close> leaves the text \<^verbatim>\<open>x\<close> with the cursor still at 2, past the end.
\<close>

theorem bookmark_launch_leaves_cursor_past_end:
  "run (spec_collaborators [] [0x78 \<mapsto> ''x'']) (typing ''ab'' @ [alt 0x78])
       (initial fresh_completion (history_of [])) =
     Returned True
       \<lparr>m_comp = fresh_completion, m_hist = \<lparr>entries = [''x''], navigationCursor = None\<rparr>,
        m_command = ''x'', m_cursorPos = 2, spawned = [''x'']\<rparr> \<and>
   \<not> cursor_ok_after
       (run (spec_collaborators [] [0x78 \<mapsto> ''x'']) (typing ''ab'' @ [alt 0x78])
          (initial fresh_completion (history_of [])))"
  (is "run ?E ?evs ?st = ?r \<and> _")
proof -
  have typed: "run ?E ?evs ?st =
      run ?E [alt 0x78]
        \<lparr>m_comp = fresh_completion, m_hist = history_of [], m_command = ''ab'',
         m_cursorPos = 2, spawned = []\<rparr>"
    by (subst run_typing)
      (simp_all add: initial_def eval_nat_numeral spec_collaborators_def spec_comp_reset_def
        fresh_completion_def)
  have hit: "bookmark_hit ?E (alt 0x78)"
    by (simp add: spec_collaborators_def spec_book_lookup_def)
  have r: "run ?E ?evs ?st = ?r"
    unfolding typed
    by (simp add: keypress_bookmark [OF hit])
      (simp add: spec_collaborators_def spec_book_lookup_def spec_hist_save_def history_of_def)
  show ?thesis
    unfolding r by (simp add: cursor_ok_after_def)
qed

text \<open>
  The bookmark branch is the only one that breaks the invariant. In every state the
  launcher reaches from the constructor by key presses that return \<^verbatim>\<open>false\<close>, the cursor
  is at most the length of the text, and so it is after one more call that returns on
  any other path, be it with \<^verbatim>\<open>false\<close> or, for Return, with \<^verbatim>\<open>true\<close>.
\<close>

lemma cursor_in_range_on_other_paths:
  assumes "run E evs (initial c h) = Returned False st"
    and "keypress E ev st = Returned b st'" and "\<not> bookmark_hit E ev"
  shows "m_cursorPos st \<le> length (m_command st) \<and> m_cursorPos st' \<le> length (m_command st')"
proof -
  have "cursor_ok (initial c h)"
    by (simp add: cursor_ok_def initial_def)
  from run_cursor_ok [OF this assms(1)] have ok: "cursor_ok st" .
  from keypress_cursor_ok [OF ok assms(3,2)] have "cursor_ok st'" .
  with ok show ?thesis by (simp add: cursor_ok_def)
qed

subsection \<open>Erase-word-backward\<close>

text \<open>
  C4, as stated, fails in three ways. A space at index 0 is not a boundary: on \<^verbatim>\<open>" ab"\<close>
  with the cursor at the end the scan stops at index 0, the guard \<^verbatim>\<open>if (i != 0)\<close> leaves
  the boundary there and the whole text goes, where the claim keeps the space and puts the
  cursor at 1. The character right before the cursor is never looked at: on \<^verbatim>\<open>"echo "\<close>
  with the cursor at the end the scan starts at index 3 and the whole text goes, where the
  nearest space strictly before the cursor is the one at index 4 and the claim's rule
  deletes nothing. And with text after the cursor, \<^verbatim>\<open>erase(i, m_cursorPos)\<close> takes the
  cursor position for the count: on \<^verbatim>\<open>"ab cd ef"\<close> with the cursor after \<^verbatim>\<open>cd\<close> it removes
  five characters from index 3 and leaves \<^verbatim>\<open>"ab "\<close>, where the claim leaves \<^verbatim>\<open>"ab  ef"\<close>.
\<close>

theorem erase_word_counterexample:
  "keypress (spec_collaborators [] Map.empty) (ctrl XK_w)
       ((initial fresh_completion (history_of []))\<lparr>m_command := '' ab'', m_cursorPos := 3\<rparr>) =
     Returned False
       ((initial fresh_completion (history_of []))\<lparr>m_command := [], m_cursorPos := 0\<rparr>) \<and>
   claimed_erase_word '' ab'' 3 = ('' '', 1) \<and>
   claimed_erase_word '' ab'' 3 \<noteq> ([], 0) \<and>
   keypress (spec_collaborators [] Map.empty) (ctrl XK_w)
       ((initial fresh_completion (history_of []))\<lparr>m_command := ''echo '', m_cursorPos := 5\<rparr>) =
     Returned False
       ((initial fresh_completion (history_of []))\<lparr>m_command := [], m_cursorPos := 0\<rparr>) \<and>
   claimed_erase_word ''echo '' 5 = (''echo '', 5) \<and>
   claimed_erase_word ''echo '' 5 \<noteq> ([], 0) \<and>
   keypress (spec_collaborators [] Map.empty) (ctrl XK_w)
       ((initial fresh_completion (history_of []))
          \<lparr>m_command := ''ab cd ef'', m_cursorPos := 5\<rparr>) =
     Returned False
       ((initial fresh_completion (history_of []))\<lparr>m_command := ''ab '', m_cursorPos := 3\<rparr>) \<and>
   claimed_erase_word ''ab cd ef'' 5 = (''ab  ef'', 3) \<and>
   claimed_erase_word ''ab cd ef'' 5 \<noteq> (''ab '', 3)"
proof -
  have s1: "scan_back '' ab'' (size_pred 3) = Inr 0"
    by (simp add: size_pred_def scan_back.simps string_at_def)
  have s2: "scan_back ''ab cd ef'' (size_pred 5) = Inr 2"
    by (simp add: size_pred_def scan_back.simps string_at_def)
  have s3: "scan_back ''echo '' (size_pred 5) = Inr 0"
    by (simp add: size_pred_def scan_back.simps string_at_def)
  have c1: "claimed_erase_word '' ab'' 3 = ('' '', 1)"
    by (simp add: claimed_erase_word_def eval_nat_numeral)
  have c3: "claimed_erase_word ''echo '' 5 = (''echo '', 5)"
    by (simp add: claimed_erase_word_def eval_nat_numeral)
  have c2: "claimed_erase_word ''ab cd ef'' 5 = (''ab  ef'', 3)"
    by (simp add: claimed_erase_word_def eval_nat_numeral)
  show ?thesis
    by (simp add: keypress_ctrl_w_key [OF s1, of 0] keypress_ctrl_w_key [OF s2, of 3]
        keypress_ctrl_w_key [OF s3, of 0] c1 c2 c3)
qed

text \<open>
  C4, amended. With the cursor at \<open>pos\<close>, \<open>0 < pos \<le> length text\<close>, Control+w moves the
  cursor to a boundary \<open>b\<close> and keeps the text before \<open>b\<close>; with the cursor at the end of
  the text, the first \<open>b\<close> characters are all that is left. The boundary is the index just
  after the nearest space among the indices 1 to \<open>pos - 2\<close>, or 0 if there is none: the
  character right before the cursor is not looked at, and a space at index 0 does not
  count. On \<^verbatim>\<open>"echo hello"\<close> with the cursor at the end this leaves \<^verbatim>\<open>"echo "\<close> with the
  cursor at 5, and once more the empty buffer with the cursor at 0.
\<close>

theorem erase_word_backward:
  assumes "resolve ev = XK_w" and "state ev AND ControlMask \<noteq> 0" and "\<not> bookmark_hit E ev"
    and "0 < m_cursorPos st" and "m_cursorPos st \<le> length (m_command st)"
  shows "(\<exists>b t'. keypress E ev st = Returned False (st\<lparr>m_command := t', m_cursorPos := b\<rparr>) \<and>
            take b t' = take b (m_command st) \<and>
            (m_cursorPos st = length (m_command st) \<longrightarrow> t' = take b (m_command st)) \<and>
            (b = 0 \<or> (2 \<le> b \<and> b < m_cursorPos st \<and> m_command st ! (b - 1) = CHR '' '')) \<and>
            (\<forall>k. 1 \<le> k \<and> b \<le> k \<and> k + 2 \<le> m_cursorPos st \<longrightarrow>
                 m_command st ! k \<noteq> CHR '' '')) \<and>
         keypress E (ctrl XK_w) (st\<lparr>m_command := ''echo hello'', m_cursorPos := 10\<rparr>) =
           Returned False (st\<lparr>m_command := ''echo '', m_cursorPos := 5\<rparr>) \<and>
         keypress E (ctrl XK_w) (st\<lparr>m_command := ''echo '', m_cursorPos := 5\<rparr>) =
           Returned False (st\<lparr>m_command := [], m_cursorPos := 0\<rparr>)"
proof -
  let ?t = "m_command st" and ?pos = "m_cursorPos st"
  from assms(4,5) have start: "size_pred ?pos = ?pos - 1" "?pos - 1 \<le> length ?t"
    by (simp_all add: size_pred_def)
  from scan_back_in_range [OF start(2)] obtain j where
    j: "scan_back ?t (?pos - 1) = Inr j" "j \<le> ?pos - 1"
      "j \<noteq> 0 \<longrightarrow> j < ?pos - 1 \<and> ?t ! j = CHR '' ''"
      "\<forall>k. j < k \<and> k < ?pos - 1 \<longrightarrow> ?t ! k \<noteq> CHR '' ''"
    by blast
  define b where "b = (if j \<noteq> 0 then j + 1 else j)"
  define t' where "t' = take b ?t @ drop (b + min ?pos (length ?t - b)) ?t"
  from j(2,3) assms(4,5) have b_le: "b \<le> ?pos - 1" "b \<le> length ?t"
    by (auto simp: b_def)
  from j(1) start(1) have "scan_back ?t (size_pred ?pos) = Inr j" by simp
  from keypress_ctrl_w_step [OF assms(1-3) this b_def b_le(2)]
  have step: "keypress E ev st = Returned False (st\<lparr>m_command := t', m_cursorPos := b\<rparr>)"
    by (simp add: t'_def)
  have pre: "take b t' = take b ?t"
    using b_le(2) by (simp add: t'_def)
  have at_end: "?pos = length ?t \<longrightarrow> t' = take b ?t"
    using b_le by (simp add: t'_def)
  have shape: "b = 0 \<or> (2 \<le> b \<and> b < ?pos \<and> ?t ! (b - 1) = CHR '' '')"
    using j(3) assms(4) by (auto simp: b_def)
  have none: "\<forall>k. 1 \<le> k \<and> b \<le> k \<and> k + 2 \<le> ?pos \<longrightarrow> ?t ! k \<noteq> CHR '' ''"
    using j(4) by (auto simp: b_def split: if_splits)
  have s1: "scan_back ''echo hello'' (size_pred 10) = Inr 4"
    by (simp add: size_pred_def scan_back.simps string_at_def)
  have s2: "scan_back ''echo '' (size_pred 5) = Inr 0"
    by (simp add: size_pred_def scan_back.simps string_at_def)
  have e1: "keypress E (ctrl XK_w) (st\<lparr>m_command := ''echo hello'', m_cursorPos := 10\<rparr>) =
      Returned False (st\<lparr>m_command := ''echo '', m_cursorPos := 5\<rparr>)"
    by (simp add: keypress_ctrl_w_key [OF s1, of 5])
  have e2: "keypress E (ctrl XK_w) (st\<lparr>m_command := ''echo '', m_cursorPos := 5\<rparr>) =
      Returned False (st\<lparr>m_command := [], m_cursorPos := 0\<rparr>)"
    by (simp add: keypress_ctrl_w_key [OF s2, of 0])
  from step pre at_end shape none e1 e2 show ?thesis by blast
qed

theorem erase_word_backward_witness:
  "resolve (ctrl XK_w) = XK_w \<and> state (ctrl XK_w) AND ControlMask \<noteq> 0 \<and>
   \<not> bookmark_hit (spec_collaborators [] Map.empty) (ctrl XK_w) \<and>
   0 < m_cursorPos
         ((initial fresh_completion (history_of []))\<lparr>m_command := ''ab cd'', m_cursorPos := 5\<rparr>) \<and>
   m_cursorPos
       ((initial fresh_completion (history_of []))\<lparr>m_command := ''ab cd'', m_cursorPos := 5\<rparr>)
     \<le> length (m_command
         ((initial fresh_completion (history_of []))\<lparr>m_command := ''ab cd'', m_cursorPos := 5\<rparr>)) \<and>
   (\<exists>b t'. keypress (spec_collaborators [] Map.empty) (ctrl XK_w)
              ((initial fresh_completion (history_of []))
                 \<lparr>m_command := ''ab cd'', m_cursorPos := 5\<rparr>) =
            Returned False
              ((initial fresh_completion (history_of []))
                 \<lparr>m_command := ''ab cd'', m_cursorPos := 5\<rparr>
                 \<lparr>m_command := t', m_cursorPos := b\<rparr>) \<and>
          take b t' =
            take b (m_command
              ((initial fresh_completion (history_of []))
                 \<lparr>m_command := ''ab cd'', m_cursorPos := 5\<rparr>)))"
  (is "?h1 \<and> ?h2 \<and> ?h3 \<and> ?h4 \<and> ?h5 \<and> ?res")
proof -
  have h1: ?h1 and h2: ?h2 and h3: ?h3 and h4: ?h4 and h5: ?h5 by simp_all
  from erase_word_backward [OF h1 h2 h3 h4 h5, THEN conjunct1] have ?res by blast
  with h1 h2 h3 h4 h5 show ?thesis by blast
qed

end
